theory Spec2Isabelle
  imports Main
begin

section \<open>The resilience layer of \<^verbatim>\<open>lib/validation_enhanced.c\<close>\<close>

text \<open>
  A shallow embedding of the connection pool, the response cache, the retry engine,
  the metrics recorder, the configuration store and the orchestrator
  \<^verbatim>\<open>curl_validation_enhanced\<close>. The file's static variables are the record
  \<open>globals\<close>; everything the file calls but does not define (libcurl's easy interface,
  \<^verbatim>\<open>time\<close>, \<^verbatim>\<open>sleep\<close>) is the record \<open>env\<close>. Each C function becomes a function
  that takes the state it touches and returns the updated one.

  Conventions: a \<^verbatim>\<open>char*\<close> or \<^verbatim>\<open>CURL*\<close> that may be \<^verbatim>\<open>NULL\<close> is an \<open>option\<close>
  (\<open>None\<close> is \<^verbatim>\<open>NULL\<close>); \<^verbatim>\<open>int\<close>, \<^verbatim>\<open>long\<close> and \<^verbatim>\<open>time_t\<close> are \<open>int\<close> (no claim
  reaches a value near their bounds: the backoff interval passes \<^verbatim>\<open>INT_MAX\<close> only
  after 22 doublings); a local variable that may be read before it is written is an
  \<open>option\<close> (\<open>None\<close> is uninitialised), and reading it is the fault
  \<open>Uninitialised_Read\<close>; passing a string literal to \<^verbatim>\<open>free\<close> is the fault
  \<open>Invalid_Free\<close>. A function that can fault returns \<open>fault + result\<close>.
\<close>

subsection \<open>Data\<close>

type_synonym CURL = nat

type_synonym CURLcode = int

definition CURLE_OK :: CURLcode where "CURLE_OK = 0"
definition CURLE_COULDNT_CONNECT :: CURLcode where "CURLE_COULDNT_CONNECT = 7"
definition CURLE_OUT_OF_MEMORY :: CURLcode where "CURLE_OUT_OF_MEMORY = 27"
definition CURLE_OPERATION_TIMEDOUT :: CURLcode where "CURLE_OPERATION_TIMEDOUT = 28"
definition CURLE_BAD_FUNCTION_ARGUMENT :: CURLcode where "CURLE_BAD_FUNCTION_ARGUMENT = 43"

text \<open>The message of an error: a literal, \<^verbatim>\<open>"HTTP %ld"\<close>, or \<^verbatim>\<open>curl_easy_strerror(res)\<close>.\<close>

datatype error_message = Literal string | HTTP_status int | Strerror CURLcode

text \<open>\<^verbatim>\<open>validation_error_t\<close>; \<^verbatim>\<open>request_id\<close> is never written by this file.\<close>

record validation_error_t =
  code :: int
  message :: error_message
  details :: "string option"
  err_timestamp :: int

record connection_pool_t =
  connections :: "CURL list"
  current_index :: int
  max_connections :: int

text \<open>\<^verbatim>\<open>pool_size\<close> counts the filled slots of \<^verbatim>\<open>connections\<close>; the list holds exactly those.\<close>

definition pool_size :: "connection_pool_t \<Rightarrow> int" where
  "pool_size p = int (length (connections p))"

record cache_entry_t =
  key :: string
  response :: string
  expiry :: int

record validation_metrics_t =
  request_time :: int
  retry_count :: int
  response_size :: nat
  timestamp :: int

record validation_config_t =
  base_url :: "string option"
  timeout :: int
  max_retries :: int
  enable_caching :: bool
  enable_metrics :: bool
  enable_connection_pooling :: bool
  client_cert_path :: "string option"
  client_key_path :: "string option"

text \<open>
  The static variables of the file. \<open>base_url_is_literal\<close> records where
  \<^verbatim>\<open>global_config.base_url\<close> points: at the string literal of the static initialiser
  (\<open>True\<close>), which must not be passed to \<^verbatim>\<open>free\<close>, or at a copy made by \<^verbatim>\<open>strdup\<close>
  (\<open>False\<close>). The two path fields are \<^verbatim>\<open>NULL\<close> in the initialiser and are only ever
  assigned from \<^verbatim>\<open>strdup\<close>, so they can always be freed and need no such record.
\<close>

record globals =
  global_config :: validation_config_t
  base_url_is_literal :: bool
  connection_pool :: connection_pool_t
  cache_head :: "cache_entry_t list"
  metrics_buffer :: "validation_metrics_t list"

definition CACHE_TTL :: int where "CACHE_TTL = 300"

definition MAX_METRICS :: int where "MAX_METRICS = 1000"

definition metrics_count :: "globals \<Rightarrow> int" where
  "metrics_count g = int (length (metrics_buffer g))"

text \<open>The initialisers of the static variables.\<close>

definition initial_config :: validation_config_t where
  "initial_config = \<lparr> base_url = Some ''https://api-mock.payments.jpmorgan.com/tsapi/v2'',
     timeout = 30, max_retries = 3, enable_caching = True, enable_metrics = True,
     enable_connection_pooling = True, client_cert_path = None, client_key_path = None \<rparr>"

definition initial_pool :: connection_pool_t where
  "initial_pool = \<lparr> connections = [], current_index = 0, max_connections = 10 \<rparr>"

definition initial_globals :: globals where
  "initial_globals = \<lparr> global_config = initial_config, base_url_is_literal = True,
     connection_pool = initial_pool, cache_head = [], metrics_buffer = [] \<rparr>"

subsection \<open>The environment: libcurl, the clock, the transport\<close>

text \<open>What \<^verbatim>\<open>curl_easy_setopt\<close> stored in a handle and what \<^verbatim>\<open>curl_easy_getinfo\<close> reads.\<close>

record easy_handle =
  opt_url :: "string option"
  opt_httpheader :: "string list"
  opt_postfields :: "string option"
  opt_timeout :: "int option"
  opt_sslcert :: "string option"
  opt_sslkey :: "string option"
  info_response_code :: int

definition new_easy :: easy_handle where
  "new_easy = \<lparr> opt_url = None, opt_httpheader = [], opt_postfields = None, opt_timeout = None,
     opt_sslcert = None, opt_sslkey = None, info_response_code = 0 \<rparr>"

text \<open>One exchange as the transport answers it: the result of \<^verbatim>\<open>curl_easy_perform\<close>,
  the HTTP status, the body, and the seconds of wall time it took.\<close>

record reply =
  result :: CURLcode
  status :: int
  body :: string
  elapsed :: int

text \<open>
  \<open>transport\<close> scripts the remote side: the reply to the i-th exchange of the run.
  \<open>performed\<close> logs the handle of every exchange, \<open>slept\<close> every \<^verbatim>\<open>sleep\<close>,
  \<open>cleaned\<close> every \<^verbatim>\<open>curl_easy_cleanup\<close>; \<open>created\<close> counts the handles made by
  \<^verbatim>\<open>curl_easy_init\<close>, which fails (returns \<^verbatim>\<open>NULL\<close>) when \<open>init_fails\<close>.
\<close>

record env =
  clock :: int
  transport :: "nat \<Rightarrow> reply"
  performed :: "CURL list"
  slept :: "int list"
  handles :: "CURL \<Rightarrow> easy_handle"
  created :: nat
  init_fails :: bool
  cleaned :: "CURL list"

definition curl_easy_init :: "env \<Rightarrow> CURL option \<times> env" where
  "curl_easy_init e =
     (if init_fails e then (None, e)
      else (Some (created e),
            e\<lparr> handles := (handles e)(created e := new_easy), created := Suc (created e) \<rparr>))"

definition curl_easy_cleanup :: "CURL \<Rightarrow> env \<Rightarrow> env" where
  "curl_easy_cleanup h e = e\<lparr> cleaned := cleaned e @ [h] \<rparr>"

definition curl_easy_perform :: "CURL \<Rightarrow> env \<Rightarrow> CURLcode \<times> env" where
  "curl_easy_perform h e =
     (let r = transport e (length (performed e)) in
      (result r,
       e\<lparr> clock := clock e + elapsed r,
          performed := performed e @ [h],
          handles := (handles e)(h := (handles e h)\<lparr> info_response_code := status r \<rparr>) \<rparr>))"

definition sleep :: "int \<Rightarrow> env \<Rightarrow> env" where
  "sleep n e = e\<lparr> clock := clock e + n, slept := slept e @ [n] \<rparr>"

datatype fault = Uninitialised_Read | Out_Of_Bounds_Read | Null_String | Invalid_Free

subsection \<open>Error construction\<close>

text \<open>\<^verbatim>\<open>set_validation_error\<close>: nothing is written when the caller passed no error struct
  (\<open>want = False\<close>); the time string is kept as the clock value it is formatted from.\<close>

definition set_validation_error ::
  "bool \<Rightarrow> int \<Rightarrow> error_message \<Rightarrow> string option \<Rightarrow> env \<Rightarrow> validation_error_t option" where
  "set_validation_error want c m d e =
     (if \<not> want then None
      else Some \<lparr> code = c, message = m, details = d, err_timestamp = clock e \<rparr>)"

subsection \<open>Connection pool\<close>

definition get_connection_from_pool :: "globals \<Rightarrow> env \<Rightarrow> fault + (CURL option \<times> globals \<times> env)" where
  "get_connection_from_pool g e =
     (let p = connection_pool g in
      if \<not> enable_connection_pooling (global_config g) \<or> pool_size p = 0 then
        (case curl_easy_init e of (c, e') \<Rightarrow> Inr (c, g, e'))
      else if 0 \<le> current_index p \<and> current_index p < pool_size p then
        Inr (Some (connections p ! nat (current_index p)),
             g\<lparr> connection_pool := p\<lparr> current_index := (current_index p + 1) mod pool_size p \<rparr> \<rparr>,
             e)
      else Inl Out_Of_Bounds_Read)"

definition return_connection_to_pool :: "CURL \<Rightarrow> globals \<Rightarrow> env \<Rightarrow> globals \<times> env" where
  "return_connection_to_pool c g e =
     (let p = connection_pool g in
      if \<not> enable_connection_pooling (global_config g) then (g, curl_easy_cleanup c e)
      else if pool_size p < max_connections p then
        (g\<lparr> connection_pool := p\<lparr> connections := connections p @ [c] \<rparr> \<rparr>, e)
      else (g, curl_easy_cleanup c e))"

subsection \<open>Response cache\<close>

text \<open>The walk of \<^verbatim>\<open>get_cached_response\<close>: \<open>passed\<close> holds the entries already passed
  (\<^verbatim>\<open>prev\<close> is \<^verbatim>\<open>NULL\<close> exactly when it is empty). The result is the copy of the
  response, or \<open>None\<close> for \<^verbatim>\<open>NULL\<close>, and the new list.\<close>

fun cache_walk :: "string \<Rightarrow> int \<Rightarrow> cache_entry_t list \<Rightarrow> cache_entry_t list
    \<Rightarrow> string option \<times> cache_entry_t list" where
  "cache_walk k now passed [] = (None, passed)"
| "cache_walk k now passed (c # rest) =
     (if key c = k then
        (if expiry c > now then
           (Some (response c), (if passed \<noteq> [] then c # passed @ rest else c # rest))
         else (None, (if passed \<noteq> [] then passed @ rest else rest)))
      else cache_walk k now (passed @ [c]) rest)"

definition get_cached_response :: "string \<Rightarrow> globals \<Rightarrow> env \<Rightarrow> string option \<times> globals" where
  "get_cached_response k g e =
     (if \<not> enable_caching (global_config g) then (None, g)
      else (case cache_walk k (clock e) [] (cache_head g) of
              (r, c') \<Rightarrow> (r, g\<lparr> cache_head := c' \<rparr>)))"

text \<open>The counting loop of \<^verbatim>\<open>cache_response\<close> stops at 100.\<close>

fun count_entries :: "cache_entry_t list \<Rightarrow> int \<Rightarrow> int" where
  "count_entries [] n = n"
| "count_entries (c # rest) n = (if n < 100 then count_entries rest (n + 1) else n)"

text \<open>The second loop walks to the last entry and unlinks it when it has a predecessor.\<close>

fun remove_last :: "cache_entry_t list \<Rightarrow> cache_entry_t list" where
  "remove_last [] = []"
| "remove_last [c] = [c]"
| "remove_last (c # d # rest) = (if rest = [] then [c] else c # remove_last (d # rest))"

definition cache_response :: "string \<Rightarrow> string \<Rightarrow> globals \<Rightarrow> env \<Rightarrow> globals" where
  "cache_response k resp g e =
     (if \<not> enable_caching (global_config g) then g
      else
        let c = cache_head g;
            c' = (if count_entries c 0 \<ge> 100 then remove_last c else c)
        in g\<lparr> cache_head := \<lparr> key = k, response = resp, expiry = clock e + CACHE_TTL \<rparr> # c' \<rparr>)"

subsection \<open>Retry with backoff\<close>

text \<open>
  The loop of \<^verbatim>\<open>validation_retry_with_backoff\<close>. \<open>n\<close> is \<^verbatim>\<open>retry_count\<close>, \<open>b\<close> is
  \<^verbatim>\<open>backoff_ms\<close>, \<open>res\<close> is the local \<^verbatim>\<open>res\<close> (\<open>None\<close> until the first
  \<^verbatim>\<open>curl_easy_perform\<close> assigns it). A \<^verbatim>\<open>continue\<close> is the recursive call, a
  \<^verbatim>\<open>break\<close> and the \<^verbatim>\<open>return\<close> inside the loop give the result at once.
\<close>

function retry_loop :: "CURL \<Rightarrow> int \<Rightarrow> int \<Rightarrow> int \<Rightarrow> CURLcode option \<Rightarrow> env
    \<Rightarrow> CURLcode option \<times> env" where
  "retry_loop curl max_r n b res e =
     (if n < max_r then
        (case curl_easy_perform curl e of (r, e1) \<Rightarrow>
           let response_code = info_response_code (handles e1 curl) in
           if r = CURLE_OK \<and> 200 \<le> response_code \<and> response_code < 300 then (Some r, e1)
           else if r = CURLE_OK \<and> response_code \<ge> 500 then
             (if n + 1 < max_r
              then retry_loop curl max_r (n + 1) (b * 2) (Some r) (sleep (b div 1000) e1)
              else retry_loop curl max_r (n + 1) b (Some r) e1)
           else if r = CURLE_COULDNT_CONNECT \<or> r = CURLE_OPERATION_TIMEDOUT then
             (if n + 1 < max_r
              then retry_loop curl max_r (n + 1) (b * 2) (Some r) (sleep (b div 1000) e1)
              else (Some r, e1))
           else (Some r, e1))
      else (res, e))"
  by pat_completeness auto
termination
  by (relation "measure (\<lambda>(curl, max_r, n, b, res, e). nat (max_r - n))") auto

definition validation_retry_with_backoff :: "CURL \<Rightarrow> int \<Rightarrow> env \<Rightarrow> CURLcode option \<times> env" where
  "validation_retry_with_backoff curl max_r e = retry_loop curl max_r 0 1000 None e"

subsection \<open>Metrics\<close>

definition record_metrics :: "validation_metrics_t \<Rightarrow> globals \<Rightarrow> globals" where
  "record_metrics m g =
     (if \<not> enable_metrics (global_config g) then g
      else if metrics_count g < MAX_METRICS then g\<lparr> metrics_buffer := metrics_buffer g @ [m] \<rparr>
      else g)"

subsection \<open>Configuration\<close>

text \<open>
  \<^verbatim>\<open>validation_set_config\<close>. When the new configuration supplies a base URL the code
  first calls \<^verbatim>\<open>free(global_config.base_url)\<close>: on the initialiser's string literal that
  is the fault \<open>Invalid_Free\<close>; on \<^verbatim>\<open>NULL\<close> it does nothing; on an earlier copy it
  releases it. The copy then stored comes from \<^verbatim>\<open>strdup\<close>.
\<close>

definition validation_set_config :: "validation_config_t \<Rightarrow> globals \<Rightarrow> fault + globals" where
  "validation_set_config config g =
     (let gc = global_config g in
      case (if base_url config \<noteq> None then
              (if base_url gc \<noteq> None \<and> base_url_is_literal g then Inl Invalid_Free
               else Inr (gc\<lparr> base_url := base_url config \<rparr>, False))
            else Inr (gc, base_url_is_literal g)) of
        Inl f \<Rightarrow> Inl f
      | Inr (gc1, lit) \<Rightarrow>
          let gc2 = gc1\<lparr> timeout := timeout config, max_retries := max_retries config,
                        enable_caching := enable_caching config,
                        enable_metrics := enable_metrics config,
                        enable_connection_pooling := enable_connection_pooling config \<rparr>;
              gc3 = (if client_cert_path config \<noteq> None
                     then gc2\<lparr> client_cert_path := client_cert_path config \<rparr> else gc2);
              gc4 = (if client_key_path config \<noteq> None
                     then gc3\<lparr> client_key_path := client_key_path config \<rparr> else gc3)
          in Inr (g\<lparr> global_config := gc4, base_url_is_literal := lit \<rparr>))"

subsection \<open>The orchestrator\<close>

text \<open>\<^verbatim>\<open>snprintf(cache_key, 256, "%s:%s", endpoint, payload)\<close> keeps at most 255 characters.\<close>

definition make_cache_key :: "string \<Rightarrow> string \<Rightarrow> string" where
  "make_cache_key endpoint payload = take 255 (endpoint @ '':'' @ payload)"

definition make_url :: "string \<Rightarrow> string \<Rightarrow> string" where
  "make_url base endpoint = take 511 (base @ ''/'' @ endpoint)"

text \<open>The \<^verbatim>\<open>curl_easy_setopt\<close> calls of the request set-up, on the handle \<open>c\<close>.\<close>

definition setup_request :: "CURL \<Rightarrow> string \<Rightarrow> string \<Rightarrow> validation_config_t \<Rightarrow> env \<Rightarrow> env" where
  "setup_request c url payload gc e =
     (let h = handles e c;
          h1 = h\<lparr> opt_url := Some url,
                 opt_httpheader := [''Content-Type: application/json'', ''Accept: application/json''],
                 opt_postfields := Some payload,
                 opt_timeout := Some (timeout gc) \<rparr>;
          h2 = (if client_cert_path gc \<noteq> None then h1\<lparr> opt_sslcert := client_cert_path gc \<rparr> else h1);
          h3 = (if client_key_path gc \<noteq> None then h2\<lparr> opt_sslkey := client_key_path gc \<rparr> else h2)
      in e\<lparr> handles := (handles e)(c := h3) \<rparr>)"

text \<open>
  The part of \<^verbatim>\<open>curl_validation_enhanced\<close> after the retry engine returned: the metric,
  the branch on \<^verbatim>\<open>res\<close>, the release of the connection. \<open>want\<close> says whether the
  caller passed an error struct.
\<close>

definition finish_request ::
  "bool \<Rightarrow> string \<Rightarrow> CURL \<Rightarrow> int \<Rightarrow> CURLcode option \<Rightarrow> globals \<Rightarrow> env
    \<Rightarrow> fault + (CURLcode \<times> validation_error_t option \<times> globals \<times> env)" where
  "finish_request want cache_key connection start_time res g e =
     (let metrics = \<lparr> request_time = clock e - start_time, retry_count = 0,
                      response_size = 0, timestamp = 0 \<rparr>;
          g1 = record_metrics metrics g
      in case res of
           None \<Rightarrow> Inl Uninitialised_Read
         | Some r \<Rightarrow>
             let response_code = info_response_code (handles e connection);
                 (err, g2) =
                   (if r = CURLE_OK then
                      (if 200 \<le> response_code \<and> response_code < 300
                       then (None, cache_response cache_key ''success'' g1 e)
                       else (set_validation_error want response_code (HTTP_status response_code)
                               (Some ''API returned non-200 status'') e, g1))
                    else (set_validation_error want r (Strerror r)
                            (Some ''CURL operation failed'') e, g1));
                 (g3, e3) = return_connection_to_pool connection g2 e
             in Inr (r, err, g3, e3))"

definition curl_validation_enhanced ::
  "CURL option \<Rightarrow> string option \<Rightarrow> string option \<Rightarrow> bool \<Rightarrow> globals \<Rightarrow> env
    \<Rightarrow> fault + (CURLcode \<times> validation_error_t option \<times> globals \<times> env)" where
  "curl_validation_enhanced curl endpoint payload want g e =
     (case (curl, endpoint, payload) of
        (Some _, Some ep, Some pl) \<Rightarrow>
          let cache_key = make_cache_key ep pl in
          (case get_cached_response cache_key g e of
             (Some cached, g1) \<Rightarrow> Inr (CURLE_OK, None, g1, e)
           | (None, g1) \<Rightarrow>
               (case get_connection_from_pool g1 e of
                  Inl f \<Rightarrow> Inl f
                | Inr (None, g2, e2) \<Rightarrow>
                    Inr (CURLE_OUT_OF_MEMORY,
                         set_validation_error want 500 (Literal ''Connection pool exhausted'')
                           (Some ''Unable to get connection from pool'') e2,
                         g2, e2)
                | Inr (Some connection, g2, e2) \<Rightarrow>
                    (case base_url (global_config g2) of
                       None \<Rightarrow> Inl Null_String
                     | Some base \<Rightarrow>
                         let e3 = setup_request connection (make_url base ep) pl (global_config g2) e2;
                             start_time = clock e3
                         in case validation_retry_with_backoff connection
                                   (max_retries (global_config g2)) e3 of
                              (res, e4) \<Rightarrow>
                                finish_request want cache_key connection start_time res g2 e4)))
      | _ \<Rightarrow>
          Inr (CURLE_BAD_FUNCTION_ARGUMENT,
               set_validation_error want 400 (Literal ''Invalid parameters'')
                 (Some ''curl, endpoint, or payload is NULL'') e,
               g, e))"

subsection \<open>Scenarios\<close>

text \<open>A fresh process: no handle created, nothing performed, the clock at 0.\<close>

definition initial_env :: "(nat \<Rightarrow> reply) \<Rightarrow> env" where
  "initial_env t = \<lparr> clock = 0, transport = t, performed = [], slept = [],
     handles = (\<lambda>_. new_easy), created = 0, init_fails = False, cleaned = [] \<rparr>"

text \<open>A transport that answers every exchange with the same status and body, at once.\<close>

definition always :: "int \<Rightarrow> string \<Rightarrow> nat \<Rightarrow> reply" where
  "always st b = (\<lambda>_. \<lparr> result = CURLE_OK, status = st, body = b, elapsed = 0 \<rparr>)"

text \<open>\<^verbatim>\<open>acquire()\<close> followed immediately by \<^verbatim>\<open>release()\<close>, and that pair \<open>k\<close> times.\<close>

definition acquire_release :: "globals \<Rightarrow> env \<Rightarrow> fault + (globals \<times> env)" where
  "acquire_release g e =
     (case get_connection_from_pool g e of
        Inl f \<Rightarrow> Inl f
      | Inr (None, g1, e1) \<Rightarrow> Inr (g1, e1)
      | Inr (Some c, g1, e1) \<Rightarrow> Inr (return_connection_to_pool c g1 e1))"


text \<open>
  A sequence of calls of the public interface: validations, configuration updates, and
  time passing between them.
\<close>

datatype api_call =
    Validate "CURL option" "string option" "string option" bool
  | Set_config validation_config_t
  | Wait int

fun api_run :: "api_call list \<Rightarrow> globals \<Rightarrow> env \<Rightarrow> fault + (globals \<times> env)" where
  "api_run [] g e = Inr (g, e)"
| "api_run (Validate curl endpoint payload want # cs) g e =
     (case curl_validation_enhanced curl endpoint payload want g e of
        Inl f \<Rightarrow> Inl f
      | Inr (r, err, g1, e1) \<Rightarrow> api_run cs g1 e1)"
| "api_run (Set_config config # cs) g e =
     (case validation_set_config config g of
        Inl f \<Rightarrow> Inl f
      | Inr g1 \<Rightarrow> api_run cs g1 e)"
| "api_run (Wait d # cs) g e = api_run cs g (e\<lparr> clock := clock e + d \<rparr>)"

section \<open>Properties\<close>

lemmas CURLE_defs = CURLE_OK_def CURLE_COULDNT_CONNECT_def CURLE_OUT_OF_MEMORY_def
  CURLE_OPERATION_TIMEDOUT_def CURLE_BAD_FUNCTION_ARGUMENT_def

text \<open>The definitions a concrete run unfolds.\<close>

lemmas run_defs = curl_validation_enhanced_def make_cache_key_def get_cached_response_def
  initial_globals_def initial_config_def initial_pool_def get_connection_from_pool_def pool_size_def
  curl_easy_init_def initial_env_def make_url_def setup_request_def validation_retry_with_backoff_def
  curl_easy_perform_def always_def new_easy_def sleep_def finish_request_def record_metrics_def
  metrics_count_def MAX_METRICS_def set_validation_error_def return_connection_to_pool_def
  cache_response_def CACHE_TTL_def curl_easy_cleanup_def acquire_release_def CURLE_defs Let_def

subsection \<open>What each function leaves alone\<close>

lemma get_cached_response_frame:
  "get_cached_response k g e = (r, g') \<Longrightarrow>
     global_config g' = global_config g \<and> connection_pool g' = connection_pool g
     \<and> metrics_buffer g' = metrics_buffer g"
  by (auto simp: get_cached_response_def split: if_splits prod.splits)

lemma get_connection_from_pool_frame:
  "get_connection_from_pool g e = Inr (c, g', e') \<Longrightarrow>
     global_config g' = global_config g \<and> cache_head g' = cache_head g
     \<and> metrics_buffer g' = metrics_buffer g"
  by (auto simp: get_connection_from_pool_def Let_def split: if_splits prod.splits)

lemma return_connection_to_pool_frame:
  "return_connection_to_pool c g e = (g', e') \<Longrightarrow>
     global_config g' = global_config g \<and> cache_head g' = cache_head g
     \<and> metrics_buffer g' = metrics_buffer g \<and> performed e' = performed e \<and> clock e' = clock e"
  by (auto simp: return_connection_to_pool_def curl_easy_cleanup_def Let_def split: if_splits)

lemma cache_response_frame:
  "global_config (cache_response k v g e) = global_config g
   \<and> connection_pool (cache_response k v g e) = connection_pool g
   \<and> metrics_buffer (cache_response k v g e) = metrics_buffer g"
  by (simp add: cache_response_def Let_def)

lemma validation_set_config_frame:
  "validation_set_config config g = Inr g' \<Longrightarrow>
     cache_head g' = cache_head g \<and> connection_pool g' = connection_pool g
     \<and> metrics_buffer g' = metrics_buffer g"
  by (auto simp: validation_set_config_def Let_def split: if_splits)

lemma record_metrics_frame:
  "global_config (record_metrics m g) = global_config g
   \<and> connection_pool (record_metrics m g) = connection_pool g
   \<and> cache_head (record_metrics m g) = cache_head g"
  by (simp add: record_metrics_def)

text \<open>The paths through the orchestrator that return.\<close>

lemma curl_validation_enhanced_cases [consumes 1, case_names bad_argument hit exhausted request]:
  assumes "curl_validation_enhanced curl endpoint payload want g e = Inr (r, err, g', e')"
  obtains
    "curl = None \<or> endpoint = None \<or> payload = None" "r = CURLE_BAD_FUNCTION_ARGUMENT"
      "g' = g" "e' = e"
  | h ep pl cached where "curl = Some h" "endpoint = Some ep" "payload = Some pl"
      "get_cached_response (make_cache_key ep pl) g e = (Some cached, g')"
      "r = CURLE_OK" "err = None" "e' = e"
  | h ep pl g1 where "curl = Some h" "endpoint = Some ep" "payload = Some pl"
      "get_cached_response (make_cache_key ep pl) g e = (None, g1)"
      "get_connection_from_pool g1 e = Inr (None, g', e')" "r = CURLE_OUT_OF_MEMORY"
  | h ep pl g1 connection g2 e2 base res e4 where
      "curl = Some h" "endpoint = Some ep" "payload = Some pl"
      "get_cached_response (make_cache_key ep pl) g e = (None, g1)"
      "get_connection_from_pool g1 e = Inr (Some connection, g2, e2)"
      "base_url (global_config g2) = Some base"
      "validation_retry_with_backoff connection (max_retries (global_config g2))
         (setup_request connection (make_url base ep) pl (global_config g2) e2) = (res, e4)"
      "finish_request want (make_cache_key ep pl) connection
         (clock (setup_request connection (make_url base ep) pl (global_config g2) e2)) res g2 e4
       = Inr (r, err, g', e')"
proof (cases "\<exists>h ep pl. curl = Some h \<and> endpoint = Some ep \<and> payload = Some pl")
  case False
  then have "curl = None \<or> endpoint = None \<or> payload = None" by auto
  moreover from this have "r = CURLE_BAD_FUNCTION_ARGUMENT \<and> g' = g \<and> e' = e"
    using assms by (auto simp: curl_validation_enhanced_def split: option.splits)
  ultimately show ?thesis using that(1) by blast
next
  case True
  then obtain h ep pl where args: "curl = Some h" "endpoint = Some ep" "payload = Some pl"
    by blast
  obtain found g1 where look: "get_cached_response (make_cache_key ep pl) g e = (found, g1)"
    by (cases "get_cached_response (make_cache_key ep pl) g e")
  show ?thesis
  proof (cases found)
    case (Some cached)
    then have "r = CURLE_OK \<and> err = None \<and> g' = g1 \<and> e' = e"
      using assms args look by (simp add: curl_validation_enhanced_def Let_def)
    then show ?thesis using that(2) args look Some by blast
  next
    case None
    note miss = look [unfolded None]
    show ?thesis
    proof (cases "get_connection_from_pool g1 e")
      case (Inl f)
      then show ?thesis
        using assms args miss by (simp add: curl_validation_enhanced_def Let_def)
    next
      case (Inr t)
      then obtain c g2 e2 where acq: "get_connection_from_pool g1 e = Inr (c, g2, e2)"
        by (cases t) auto
      show ?thesis
      proof (cases c)
        case None
        then have "r = CURLE_OUT_OF_MEMORY \<and> g' = g2 \<and> e' = e2"
          using assms args miss acq by (simp add: curl_validation_enhanced_def Let_def)
        then show ?thesis using that(3) args miss acq None by blast
      next
        case (Some connection)
        note acq' = acq [unfolded Some]
        show ?thesis
        proof (cases "base_url (global_config g2)")
          case None
          then show ?thesis
            using assms args miss acq' by (simp add: curl_validation_enhanced_def Let_def)
        next
          case (Some base)
          let ?e3 = "setup_request connection (make_url base ep) pl (global_config g2) e2"
          obtain res e4 where
            rt: "validation_retry_with_backoff connection (max_retries (global_config g2)) ?e3 = (res, e4)"
            by (cases "validation_retry_with_backoff connection (max_retries (global_config g2)) ?e3")
          have "finish_request want (make_cache_key ep pl) connection (clock ?e3) res g2 e4
                  = Inr (r, err, g', e')"
            using assms args miss acq' Some rt by (simp add: curl_validation_enhanced_def Let_def)
          then show ?thesis using that(4) args miss acq' Some rt by blast
        qed
      qed
    qed
  qed
qed

lemma record_metrics_buffer:
  "metrics_buffer (record_metrics m g) = metrics_buffer g
   \<or> metrics_buffer (record_metrics m g) = metrics_buffer g @ [m]"
  by (simp add: record_metrics_def)

subsection \<open>Response cache: lookup\<close>

lemma find_key_holds: "find (\<lambda>c. key c = k) xs = Some c \<Longrightarrow> key c = k"
  by (induction xs) (auto split: if_splits)

lemma cache_walk_find:
  "cache_walk k now passed xs =
     (case find (\<lambda>c. key c = k) xs of
        None \<Rightarrow> (None, passed @ xs)
      | Some c \<Rightarrow>
          if expiry c > now then (Some (response c), c # passed @ remove1 c xs)
          else (None, passed @ remove1 c xs))"
proof (induction xs arbitrary: passed)
  case Nil
  then show ?case by simp
next
  case (Cons x xs)
  show ?case
  proof (cases "key x = k")
    case True
    then show ?thesis by simp
  next
    case False
    then have "\<And>c. find (\<lambda>c. key c = k) xs = Some c \<Longrightarrow> x \<noteq> c"
      using find_key_holds by blast
    with False show ?thesis
      by (auto simp: Cons.IH split: option.splits)
  qed
qed

lemma get_cached_response_find:
  "enable_caching (global_config g) \<Longrightarrow>
   get_cached_response k g e =
     (case find (\<lambda>c. key c = k) (cache_head g) of
        None \<Rightarrow> (None, g)
      | Some c \<Rightarrow>
          if expiry c > clock e
          then (Some (response c), g\<lparr> cache_head := c # remove1 c (cache_head g) \<rparr>)
          else (None, g\<lparr> cache_head := remove1 c (cache_head g) \<rparr>))"
  by (simp add: get_cached_response_def cache_walk_find split: option.splits)

text \<open>
  Claim C7: with caching enabled, \<^verbatim>\<open>get_cached_response(key)\<close> decides on the first entry
  with that key in recency order (the only one when keys are pairwise distinct). If its
  expiry is strictly after the current time, the entry moves to the head of the list and
  its response is returned; if it is expired, the entry is unlinked and the lookup misses;
  if no entry has the key, the lookup misses and the cache is unchanged. A lookup right
  after \<^verbatim>\<open>cache_response(key, value)\<close>, at the same clock value, returns \<open>value\<close>.
\<close>

theorem C7_lookup_contract:
  assumes "enable_caching (global_config g)"
  shows "(find (\<lambda>c. key c = k) (cache_head g) = Some c \<and> expiry c > clock e \<longrightarrow>
            get_cached_response k g e =
              (Some (response c), g\<lparr> cache_head := c # remove1 c (cache_head g) \<rparr>))
       \<and> (find (\<lambda>c. key c = k) (cache_head g) = Some c \<and> expiry c \<le> clock e \<longrightarrow>
            get_cached_response k g e = (None, g\<lparr> cache_head := remove1 c (cache_head g) \<rparr>))
       \<and> ((\<forall>c \<in> set (cache_head g). key c \<noteq> k) \<longrightarrow> get_cached_response k g e = (None, g))
       \<and> fst (get_cached_response k (cache_response k v g e) e) = Some v"
proof -
  have "(\<forall>c \<in> set (cache_head g). key c \<noteq> k) \<Longrightarrow> find (\<lambda>c. key c = k) (cache_head g) = None"
    by (simp add: find_None_iff)
  moreover have "fst (get_cached_response k (cache_response k v g e) e) = Some v"
    using assms by (simp add: get_cached_response_def cache_response_def CACHE_TTL_def Let_def)
  ultimately show ?thesis
    using assms by (simp add: get_cached_response_find)
qed

theorem C7_lookup_contract_witness:
  "enable_caching (global_config initial_globals)
   \<and> get_cached_response ''b''
         (initial_globals\<lparr> cache_head := [\<lparr> key = ''a'', response = ''va'', expiry = 100 \<rparr>,
                                           \<lparr> key = ''b'', response = ''vb'', expiry = 500 \<rparr>] \<rparr>)
         ((initial_env (always 200 []))\<lparr> clock := 200 \<rparr>)
       = (Some ''vb'',
          initial_globals\<lparr> cache_head := [\<lparr> key = ''b'', response = ''vb'', expiry = 500 \<rparr>,
                                           \<lparr> key = ''a'', response = ''va'', expiry = 100 \<rparr>] \<rparr>)
   \<and> get_cached_response ''a''
         (initial_globals\<lparr> cache_head := [\<lparr> key = ''a'', response = ''va'', expiry = 100 \<rparr>,
                                           \<lparr> key = ''b'', response = ''vb'', expiry = 500 \<rparr>] \<rparr>)
         ((initial_env (always 200 []))\<lparr> clock := 200 \<rparr>)
       = (None,
          initial_globals\<lparr> cache_head := [\<lparr> key = ''b'', response = ''vb'', expiry = 500 \<rparr>] \<rparr>)"
  using C7_lookup_contract
    [of "initial_globals\<lparr> cache_head := [\<lparr> key = ''a'', response = ''va'', expiry = 100 \<rparr>,
                                           \<lparr> key = ''b'', response = ''vb'', expiry = 500 \<rparr>] \<rparr>"
        "''b''" "\<lparr> key = ''b'', response = ''vb'', expiry = 500 \<rparr>"
        "(initial_env (always 200 []))\<lparr> clock := 200 \<rparr>"]
    C7_lookup_contract
    [of "initial_globals\<lparr> cache_head := [\<lparr> key = ''a'', response = ''va'', expiry = 100 \<rparr>,
                                           \<lparr> key = ''b'', response = ''vb'', expiry = 500 \<rparr>] \<rparr>"
        "''a''" "\<lparr> key = ''a'', response = ''va'', expiry = 100 \<rparr>"
        "(initial_env (always 200 []))\<lparr> clock := 200 \<rparr>"]
  by (simp add: initial_globals_def initial_config_def initial_env_def)

subsection \<open>Orchestrator: arguments\<close>

text \<open>
  Claim C5 as stated fails: the guard of \<^verbatim>\<open>curl_validation_enhanced\<close> tests the pointers
  for \<^verbatim>\<open>NULL\<close> only. With the empty string for endpoint and payload the call goes on
  to the cache, takes a connection, performs one exchange and returns \<^verbatim>\<open>CURLE_OK\<close>.
\<close>

theorem C5_empty_string_counterexample:
  "\<exists>g' e'.
     curl_validation_enhanced (Some 0) (Some []) (Some []) True
       initial_globals (initial_env (always 200 [])) = Inr (CURLE_OK, None, g', e')
     \<and> performed e' = [0]
     \<and> connections (connection_pool g') = [0]
     \<and> map key (cache_head g') = ['':'']"
  by (simp add: run_defs)

text \<open>
  Claim C5, amended: when the handle, the endpoint or the payload is missing (\<^verbatim>\<open>NULL\<close>),
  the call returns \<^verbatim>\<open>CURLE_BAD_FUNCTION_ARGUMENT\<close> at once, with error code 400 when the
  caller passed an error struct, and leaves the globals and the environment as they
  were: no cache access, no pool acquisition, no exchange. An empty string is not
  missing and is processed like any other.
\<close>

theorem C5_null_argument_rejected:
  assumes "curl = None \<or> endpoint = None \<or> payload = None"
  shows "curl_validation_enhanced curl endpoint payload want g e =
           Inr (CURLE_BAD_FUNCTION_ARGUMENT,
                (if want then Some \<lparr> code = 400, message = Literal ''Invalid parameters'',
                                      details = Some ''curl, endpoint, or payload is NULL'',
                                      err_timestamp = clock e \<rparr>
                 else None),
                g, e)"
  using assms
  by (auto simp: curl_validation_enhanced_def set_validation_error_def split: option.splits)

theorem C5_null_argument_rejected_witness:
  "curl_validation_enhanced (Some 0) None (Some ''{}'') True initial_globals (initial_env (always 200 []))
     = Inr (CURLE_BAD_FUNCTION_ARGUMENT,
            Some \<lparr> code = 400, message = Literal ''Invalid parameters'',
                   details = Some ''curl, endpoint, or payload is NULL'', err_timestamp = 0 \<rparr>,
            initial_globals, initial_env (always 200 []))"
  using C5_null_argument_rejected
    [of "Some 0" None "Some ''{}''" True initial_globals "initial_env (always 200 [])"]
  by (simp add: initial_env_def)

subsection \<open>Metrics\<close>

lemma finish_request_metrics:
  assumes "finish_request want ck c st res g e = Inr (r, err, g', e')"
  shows "\<exists>ms. metrics_buffer g' = metrics_buffer g @ ms \<and> length ms \<le> 1
           \<and> (\<forall>m \<in> set ms. retry_count m = 0)"
proof -
  let ?m = "\<lparr> request_time = clock e - st, retry_count = 0, response_size = 0, timestamp = 0 \<rparr>"
  have "metrics_buffer g' = metrics_buffer (record_metrics ?m g)"
    using assms
    by (auto simp: finish_request_def Let_def cache_response_frame
             split: option.splits if_splits prod.splits dest!: return_connection_to_pool_frame)
  then have "metrics_buffer g' = metrics_buffer g @ [] \<or> metrics_buffer g' = metrics_buffer g @ [?m]"
    using record_metrics_buffer [of ?m g] by auto
  then show ?thesis
  proof
    assume "metrics_buffer g' = metrics_buffer g @ []"
    then show ?thesis by (intro exI [of _ "[]"]) simp
  next
    assume "metrics_buffer g' = metrics_buffer g @ [?m]"
    then show ?thesis by (intro exI [of _ "[?m]"]) simp
  qed
qed

text \<open>
  Claim C9: a call of \<^verbatim>\<open>curl_validation_enhanced\<close> appends at most one metric to the
  buffer, and every metric it appends has \<^verbatim>\<open>retry_count = 0\<close>, whatever the retry engine
  did: the orchestrator assigns the constant 0 and the engine's counter is a local
  variable that never leaves it.
\<close>

theorem C9_recorded_retry_count_zero:
  assumes "curl_validation_enhanced curl endpoint payload want g e = Inr (r, err, g', e')"
  shows "\<exists>ms. metrics_buffer g' = metrics_buffer g @ ms \<and> length ms \<le> 1
           \<and> (\<forall>m \<in> set ms. retry_count m = 0)"
  using assms
proof (cases rule: curl_validation_enhanced_cases)
  case bad_argument
  then show ?thesis by (intro exI [of _ "[]"]) simp
next
  case (hit h ep pl cached)
  then show ?thesis
    using get_cached_response_frame [OF hit(4)] by (intro exI [of _ "[]"]) simp
next
  case (exhausted h ep pl g1)
  then show ?thesis
    using get_cached_response_frame [OF exhausted(4)] get_connection_from_pool_frame [OF exhausted(5)]
    by (intro exI [of _ "[]"]) simp
next
  case (request h ep pl g1 connection g2 e2 base res e4)
  then show ?thesis
    using get_cached_response_frame [OF request(4)] get_connection_from_pool_frame [OF request(5)]
      finish_request_metrics [OF request(8)]
    by simp
qed

text \<open>The run of claim C1 (three exchanges, two backoff sleeps) records one metric, with
  retry count 0.\<close>

theorem C9_recorded_retry_count_zero_witness:
  "\<exists>r err g' e'.
     curl_validation_enhanced (Some 0) (Some ''validations/accounts'') (Some ''{}'') True
       initial_globals (initial_env (always 503 [])) = Inr (r, err, g', e')
     \<and> length (performed e') = 3
     \<and> length (metrics_buffer g') = 1
     \<and> map retry_count (metrics_buffer g') = [0]"
proof -
  have "\<exists>r err g' e'.
     curl_validation_enhanced (Some 0) (Some ''validations/accounts'') (Some ''{}'') True
       initial_globals (initial_env (always 503 [])) = Inr (r, err, g', e')
     \<and> length (performed e') = 3 \<and> length (metrics_buffer g') = 1"
    by (simp add: run_defs)
  then obtain r err g' e' where
    run: "curl_validation_enhanced (Some 0) (Some ''validations/accounts'') (Some ''{}'') True
       initial_globals (initial_env (always 503 [])) = Inr (r, err, g', e')"
    and n: "length (performed e') = 3" "length (metrics_buffer g') = 1"
    by blast
  from C9_recorded_retry_count_zero [OF run] obtain ms where
    ms: "metrics_buffer g' = metrics_buffer initial_globals @ ms" "\<forall>m \<in> set ms. retry_count m = 0"
    by blast
  then have "metrics_buffer g' = ms" by (simp add: initial_globals_def)
  with n(2) ms(2) have "map retry_count (metrics_buffer g') = [0]"
    by (cases ms) auto
  with run n show ?thesis
    by (intro exI [of _ r] exI [of _ err] exI [of _ g'] exI [of _ e']) simp
qed

subsection \<open>Connection pool\<close>









text \<open>
  Claim C3 does not hold of the code: \<^verbatim>\<open>get_connection_from_pool\<close> reads the slot at
  \<^verbatim>\<open>current_index\<close> and advances the index; it never removes the handle. With pooling
  enabled and the index inside a non-empty pool, the acquired handle is still in the
  pool's slots after the acquisition, and the pool is again in a state where the next
  acquisition reads a slot. In the scenario below, after one acquire and release, two
  acquisitions in a row with no release in between both return handle 0.
\<close>

theorem C3_acquired_handle_stays_in_pool:
  assumes "enable_connection_pooling (global_config g)"
    and "0 \<le> current_index (connection_pool g)"
    and "current_index (connection_pool g) < pool_size (connection_pool g)"
  shows "\<exists>g'. get_connection_from_pool g e =
               Inr (Some (connections (connection_pool g) ! nat (current_index (connection_pool g))), g', e)
          \<and> connections (connection_pool g') = connections (connection_pool g)
          \<and> connections (connection_pool g) ! nat (current_index (connection_pool g))
               \<in> set (connections (connection_pool g'))
          \<and> global_config g' = global_config g
          \<and> 0 \<le> current_index (connection_pool g')
          \<and> current_index (connection_pool g') < pool_size (connection_pool g')"
proof -
  let ?p = "connection_pool g"
  let ?i = "(current_index ?p + 1) mod pool_size ?p"
  let ?g' = "g\<lparr> connection_pool := ?p\<lparr> current_index := ?i \<rparr> \<rparr>"
  have pos: "0 < pool_size ?p"
    using assms(2,3) by linarith
  have run: "get_connection_from_pool g e =
          Inr (Some (connections ?p ! nat (current_index ?p)), ?g', e)"
    using assms pos by (simp add: get_connection_from_pool_def Let_def)
  have "nat (current_index ?p) < length (connections ?p)"
    using assms(2,3) by (simp add: pool_size_def)
  then have mem: "connections ?p ! nat (current_index ?p) \<in> set (connections ?p)"
    by (rule nth_mem)
  have "0 \<le> ?i" "?i < pool_size ?p"
    using pos by (simp_all add: pos_mod_sign pos_mod_bound)
  then have idx: "0 \<le> current_index (connection_pool ?g')"
    "current_index (connection_pool ?g') < pool_size (connection_pool ?g')"
    by (simp_all add: pool_size_def)
  show ?thesis
    using run mem idx by (intro exI [of _ ?g']) simp
qed

theorem C3_acquired_handle_stays_in_pool_witness:
  "\<exists>g1 e1. acquire_release initial_globals (initial_env (always 200 [])) = Inr (g1, e1)
      \<and> connections (connection_pool g1) = [0]
      \<and> (\<exists>g2. get_connection_from_pool g1 e1 = Inr (Some 0, g2, e1)
            \<and> 0 \<in> set (connections (connection_pool g2))
            \<and> (\<exists>g3. get_connection_from_pool g2 e1 = Inr (Some 0, g3, e1)))"
proof -
  have "\<exists>g1 e1. acquire_release initial_globals (initial_env (always 200 [])) = Inr (g1, e1)
      \<and> enable_connection_pooling (global_config g1)
      \<and> connections (connection_pool g1) = [0]
      \<and> current_index (connection_pool g1) = 0"
    by (simp add: run_defs)
  then show ?thesis
  proof (elim exE conjE)
    fix g1 e1
    assume round: "acquire_release initial_globals (initial_env (always 200 [])) = Inr (g1, e1)"
      and en: "enable_connection_pooling (global_config g1)"
      and conns: "connections (connection_pool g1) = [0]"
      and idx: "current_index (connection_pool g1) = 0"
    have i1: "0 \<le> current_index (connection_pool g1)"
      "current_index (connection_pool g1) < pool_size (connection_pool g1)"
      using conns idx by (simp_all add: pool_size_def)
    from C3_acquired_handle_stays_in_pool [OF en i1, of e1] conns idx obtain g2 where
      first: "get_connection_from_pool g1 e1 = Inr (Some 0, g2, e1)"
      and c2: "connections (connection_pool g2) = [0]"
      and en2: "enable_connection_pooling (global_config g2)"
      and i2: "0 \<le> current_index (connection_pool g2)"
        "current_index (connection_pool g2) < pool_size (connection_pool g2)"
      using en by auto
    from i2 c2 have z: "current_index (connection_pool g2) = 0"
      by (simp add: pool_size_def)
    from C3_acquired_handle_stays_in_pool [OF en2 i2, of e1] c2 z obtain g3 where
      second: "get_connection_from_pool g2 e1 = Inr (Some 0, g3, e1)"
      by auto
    from round conns first c2 second show ?thesis
      by (intro exI [of _ g1] exI [of _ e1] conjI exI [of _ g2] exI [of _ g3]) simp_all
  qed
qed

subsection \<open>Response cache: keys\<close>

text \<open>
  Claim C8 as stated fails: \<^verbatim>\<open>cache_response\<close> never looks for an existing entry, it
  links a new one at the head. Two stores under one key leave two entries with that key.
\<close>

theorem C8_store_twice_counterexample:
  "\<not> distinct (map key (cache_head
        (cache_response ''k'' ''b''
           (cache_response ''k'' ''a'' initial_globals (initial_env (always 200 [])))
           (initial_env (always 200 [])))))"
  by (simp add: run_defs)

lemma distinct_map_remove1:
  assumes "distinct (map f xs)"
  shows "distinct (map f (remove1 x xs))"
proof -
  from assms have "distinct xs" "inj_on f (set xs)"
    by (simp_all add: distinct_map)
  moreover have "set (remove1 x xs) \<subseteq> set xs"
    by (rule set_remove1_subset)
  ultimately show ?thesis
    by (auto simp: distinct_map intro: inj_on_subset)
qed

lemma distinct_map_removed_absent:
  assumes "distinct (map f xs)" and "c \<in> set xs"
  shows "f c \<notin> f ` set (remove1 c xs)"
proof
  assume "f c \<in> f ` set (remove1 c xs)"
  then obtain y where y: "y \<in> set (remove1 c xs)" "f y = f c" by auto
  from assms have d: "distinct xs" and i: "inj_on f (set xs)"
    by (simp_all add: distinct_map)
  from y(1) d have "y \<in> set xs" "y \<noteq> c" by simp_all
  with i y(2) assms(2) show False by (auto dest: inj_onD)
qed

lemma find_in_set: "find P xs = Some c \<Longrightarrow> c \<in> set xs"
  by (induction xs) (auto split: if_splits)

lemma get_cached_response_distinct:
  assumes "distinct (map key (cache_head g))" and "get_cached_response k g e = (r, g')"
  shows "distinct (map key (cache_head g'))"
proof (cases "enable_caching (global_config g)")
  case False
  with assms show ?thesis by (simp add: get_cached_response_def)
next
  case True
  show ?thesis
  proof (cases "find (\<lambda>c. key c = k) (cache_head g)")
    case None
    with True assms show ?thesis by (auto simp: get_cached_response_find)
  next
    case (Some c)
    then have "c \<in> set (cache_head g)" by (rule find_in_set)
    then have "key c \<notin> key ` set (remove1 c (cache_head g))"
      using assms(1) by (rule distinct_map_removed_absent [rotated])
    moreover have "distinct (map key (remove1 c (cache_head g)))"
      using assms(1) by (rule distinct_map_remove1)
    ultimately show ?thesis
      using True assms(2) Some by (auto simp: get_cached_response_find split: if_splits)
  qed
qed

lemma get_cached_response_miss_absent:
  assumes "distinct (map key (cache_head g))" and "enable_caching (global_config g)"
    and "get_cached_response k g e = (None, g')"
  shows "k \<notin> key ` set (cache_head g')"
proof (cases "find (\<lambda>c. key c = k) (cache_head g)")
  case None
  then have "k \<notin> key ` set (cache_head g)" by (auto simp: find_None_iff)
  with None assms show ?thesis by (auto simp: get_cached_response_find)
next
  case (Some c)
  then have c: "c \<in> set (cache_head g)" "key c = k"
    by (auto dest: find_in_set find_key_holds)
  have "k \<notin> key ` set (remove1 c (cache_head g))"
    using distinct_map_removed_absent [OF assms(1) c(1)] c(2) by simp
  with Some assms show ?thesis
    by (auto simp: get_cached_response_find split: if_splits)
qed

lemma remove_last_butlast: "remove_last xs = (if 2 \<le> length xs then butlast xs else xs)"
  by (induction xs rule: remove_last.induct) (auto simp: Suc_le_eq)

lemma cache_response_distinct:
  assumes "distinct (map key (cache_head g))"
    and "enable_caching (global_config g) \<longrightarrow> k \<notin> key ` set (cache_head g)"
  shows "distinct (map key (cache_head (cache_response k v g e)))"
proof (cases "enable_caching (global_config g)")
  case False
  with assms show ?thesis by (simp add: cache_response_def)
next
  case True
  have "distinct (map key (butlast (cache_head g)))"
    using assms(1) by (simp add: map_butlast distinct_butlast)
  moreover have "k \<notin> key ` set (butlast (cache_head g))"
    using assms(2) True by (auto dest: in_set_butlastD)
  ultimately show ?thesis
    using True assms by (auto simp: cache_response_def Let_def remove_last_butlast)
qed

lemma finish_request_distinct:
  assumes "distinct (map key (cache_head g))"
    and "enable_caching (global_config g) \<longrightarrow> ck \<notin> key ` set (cache_head g)"
    and "finish_request want ck c st res g e = Inr (r, err, g', e')"
  shows "distinct (map key (cache_head g'))"
proof -
  let ?m = "\<lparr> request_time = clock e - st, retry_count = 0, response_size = 0, timestamp = 0 \<rparr>"
  let ?g1 = "record_metrics ?m g"
  have g1: "distinct (map key (cache_head ?g1))"
    "enable_caching (global_config ?g1) \<longrightarrow> ck \<notin> key ` set (cache_head ?g1)"
    using assms(1,2) by (simp_all add: record_metrics_frame)
  have "cache_head g' = cache_head ?g1
        \<or> cache_head g' = cache_head (cache_response ck ''success'' ?g1 e)"
    using assms(3)
    by (auto simp: finish_request_def Let_def
             split: option.splits if_splits prod.splits dest!: return_connection_to_pool_frame)
  then show ?thesis
    using g1 cache_response_distinct [OF g1, of "''success''" e] by auto
qed

lemma curl_validation_enhanced_distinct:
  assumes "distinct (map key (cache_head g))"
    and "curl_validation_enhanced curl endpoint payload want g e = Inr (r, err, g', e')"
  shows "distinct (map key (cache_head g'))"
  using assms(2)
proof (cases rule: curl_validation_enhanced_cases)
  case bad_argument
  with assms(1) show ?thesis by simp
next
  case (hit h ep pl cached)
  from get_cached_response_distinct [OF assms(1) hit(4)] show ?thesis .
next
  case (exhausted h ep pl g1)
  from get_cached_response_distinct [OF assms(1) exhausted(4)]
    get_connection_from_pool_frame [OF exhausted(5)]
  show ?thesis by simp
next
  case (request h ep pl g1 connection g2 e2 base res e4)
  have d1: "distinct (map key (cache_head g1))"
    by (rule get_cached_response_distinct [OF assms(1) request(4)])
  have c1: "global_config g1 = global_config g"
    using get_cached_response_frame [OF request(4)] by simp
  have a1: "enable_caching (global_config g1) \<longrightarrow> make_cache_key ep pl \<notin> key ` set (cache_head g1)"
    using get_cached_response_miss_absent [OF assms(1) _ request(4)] c1 by simp
  have f2: "cache_head g2 = cache_head g1" "global_config g2 = global_config g1"
    using get_connection_from_pool_frame [OF request(5)] by simp_all
  show ?thesis
    by (rule finish_request_distinct [OF _ _ request(8)]) (use d1 a1 f2 in simp_all)
qed

text \<open>
  Claim C8, amended: \<^verbatim>\<open>cache_response\<close> does not overwrite, it inserts at the head; the
  keys stay pairwise distinct because the orchestrator stores a key only after the
  lookup of that key missed in the same call (a miss leaves no entry with the key). So
  for every sequence of validate calls, configuration updates and waits that returns,
  started with pairwise distinct keys (the empty cache in particular), all keys in the
  cache are pairwise distinct.
\<close>

theorem C8_api_keeps_keys_distinct:
  assumes "distinct (map key (cache_head g))" and "api_run cs g e = Inr (g', e')"
  shows "distinct (map key (cache_head g'))"
  using assms
proof (induction cs g e rule: api_run.induct)
  case (1 g e)
  then show ?case by simp
next
  case (2 curl endpoint payload want cs g e)
  from "2.prems"(2) obtain r err g1 e1 where
    step: "curl_validation_enhanced curl endpoint payload want g e = Inr (r, err, g1, e1)"
    and rest: "api_run cs g1 e1 = Inr (g', e')"
    by (auto split: sum.splits)
  from curl_validation_enhanced_distinct [OF "2.prems"(1) step]
  have "distinct (map key (cache_head g1))" .
  with "2.IH" step rest show ?case by simp
next
  case (3 config cs g e)
  from "3.prems"(2) obtain g1 where
    step: "validation_set_config config g = Inr g1"
    and rest: "api_run cs g1 e = Inr (g', e')"
    by (auto split: sum.splits)
  from step have "cache_head g1 = cache_head g"
    by (rule validation_set_config_frame [THEN conjunct1])
  with "3.prems"(1) "3.IH" step rest show ?case by simp
next
  case (4 d cs g e)
  then show ?case by simp
qed

theorem C8_api_keeps_keys_distinct_witness:
  "distinct (map key (cache_head initial_globals))
   \<and> (\<exists>g' e'.
        api_run [Validate (Some 0) (Some ''a'') (Some ''x'') True,
                 Validate (Some 0) (Some ''a'') (Some ''x'') True,
                 Wait 300,
                 Validate (Some 0) (Some ''a'') (Some ''x'') True,
                 Validate (Some 0) (Some ''b'') (Some ''y'') True]
          initial_globals (initial_env (always 200 [])) = Inr (g', e')
        \<and> map key (cache_head g') = [''b:y'', ''a:x'']
        \<and> length (performed e') = 3
        \<and> distinct (map key (cache_head g')))"
proof -
  let ?cs = "[Validate (Some 0) (Some ''a'') (Some ''x'') True,
              Validate (Some 0) (Some ''a'') (Some ''x'') True,
              Wait 300,
              Validate (Some 0) (Some ''a'') (Some ''x'') True,
              Validate (Some 0) (Some ''b'') (Some ''y'') True]"
  have d0: "distinct (map key (cache_head initial_globals))"
    by (simp add: initial_globals_def)
  have "\<exists>g' e'. api_run ?cs initial_globals (initial_env (always 200 [])) = Inr (g', e')
          \<and> map key (cache_head g') = [''b:y'', ''a:x''] \<and> length (performed e') = 3"
    by (simp add: run_defs)
  then show ?thesis
  proof (elim exE conjE)
    fix g' e'
    assume run: "api_run ?cs initial_globals (initial_env (always 200 [])) = Inr (g', e')"
      and ks: "map key (cache_head g') = [''b:y'', ''a:x'']" "length (performed e') = 3"
    from C8_api_keeps_keys_distinct [OF d0 run] have "distinct (map key (cache_head g'))" .
    with d0 run ks show ?thesis
      by (intro conjI exI [of _ g'] exI [of _ e']) simp_all
  qed
qed


subsection \<open>Orchestrator: what a success stores\<close>






subsection \<open>Orchestrator: a transport that always answers 503\<close>

lemma curl_easy_perform_log:
  "curl_easy_perform h e = (r, e1) \<Longrightarrow>
     r = result (transport e (length (performed e)))
     \<and> info_response_code (handles e1 h) = status (transport e (length (performed e)))
     \<and> performed e1 = performed e @ [h] \<and> transport e1 = transport e"
  by (auto simp: curl_easy_perform_def Let_def)

lemma sleep_log: "performed (sleep d e) = performed e \<and> transport (sleep d e) = transport e"
  by (simp add: sleep_def)

text \<open>Against a transport that answers every exchange with a 5xx status, the engine
  performs exactly as many exchanges as \<open>max_r - n\<close> allows.\<close>

lemma retry_loop_always_5xx:
  assumes "\<forall>i. result (transport e i) = CURLE_OK \<and> 500 \<le> status (transport e i)"
  shows "length (performed (snd (retry_loop curl max_r n b res e)))
           = length (performed e) + nat (max_r - n)"
  using assms
proof (induction curl max_r n b res e rule: retry_loop.induct)
  case (1 curl max_r n b res e)
  show ?case
  proof (cases "n < max_r")
    case False
    then show ?thesis by simp
  next
    case True
    obtain r e1 where p: "curl_easy_perform curl e = (r, e1)"
      by (cases "curl_easy_perform curl e")
    note log = curl_easy_perform_log [OF p]
    from log "1.prems" have ok: "r = CURLE_OK" and st: "500 \<le> info_response_code (handles e1 curl)"
      by simp_all
    have tr: "\<forall>i. result (transport e1 i) = CURLE_OK \<and> 500 \<le> status (transport e1 i)"
      using log "1.prems" by simp
    show ?thesis
    proof (cases "n + 1 < max_r")
      case more: True
      let ?e2 = "sleep (b div 1000) e1"
      have "length (performed (snd (retry_loop curl max_r (n + 1) (b * 2) (Some r) ?e2)))
              = length (performed ?e2) + nat (max_r - (n + 1))"
      proof (rule "1.IH"(1) [OF True p [symmetric] refl])
        show "\<not> (r = CURLE_OK \<and> 200 \<le> info_response_code (handles e1 curl)
                   \<and> info_response_code (handles e1 curl) < 300)"
          using st by simp
        show "r = CURLE_OK \<and> 500 \<le> info_response_code (handles e1 curl)"
          using ok st by simp
        show "n + 1 < max_r" by fact
        show "\<forall>i. result (transport ?e2 i) = CURLE_OK \<and> 500 \<le> status (transport ?e2 i)"
          using tr by (simp add: sleep_log)
      qed
      moreover have "retry_loop curl max_r n b res e
              = retry_loop curl max_r (n + 1) (b * 2) (Some r) ?e2"
        using True p ok st more by (subst retry_loop.simps) simp
      ultimately show ?thesis
        using log True by (simp add: sleep_log nat_diff_distrib)
    next
      case last: False
      have "retry_loop curl max_r n b res e = (Some r, e1)"
        using True p ok st last by (subst retry_loop.simps) simp
      then show ?thesis
        using log True last by simp
    qed
  qed
qed

lemma validation_retry_with_backoff_always_5xx:
  assumes "\<forall>i. result (transport e i) = CURLE_OK \<and> 500 \<le> status (transport e i)"
  shows "length (performed (snd (validation_retry_with_backoff curl max_r e)))
           = length (performed e) + nat max_r"
  using retry_loop_always_5xx [OF assms, of curl max_r 0 1000 None]
  by (simp add: validation_retry_with_backoff_def)

text \<open>
  Claim C1 does not hold of the code: with \<^verbatim>\<open>max_retries = 3\<close> (the initial
  configuration) and a transport that answers 503 to every exchange, the loop
  \<^verbatim>\<open>while (retry_count < max_retries)\<close> performs three exchanges, not four, with sleeps
  of 1 and 2 seconds between them (by the lemma above the engine performs
  \<^verbatim>\<open>max_retries\<close> exchanges in all, whatever the bound). The call returns \<^verbatim>\<open>CURLE_OK\<close>;
  the status 503 is carried by the error struct.
\<close>

theorem C1_always_503_three_exchanges:
  "\<exists>err g' e'.
     curl_validation_enhanced (Some 0) (Some ''validations/accounts'') (Some ''{}'') True
       initial_globals (initial_env (always 503 [])) = Inr (CURLE_OK, Some err, g', e')
     \<and> code err = 503 \<and> message err = HTTP_status 503
     \<and> length (performed e') = 3 \<and> slept e' = [1, 2]"
  by (simp add: run_defs)

subsection \<open>Configuration store\<close>

text \<open>
  In the initial state, and in every state the code reaches from it, the base URL
  pointer is the initialiser's string literal: a configuration that supplies a base URL
  makes \<^verbatim>\<open>validation_set_config\<close> free that literal.
\<close>

lemma validation_set_config_frees_literal:
  assumes "base_url config \<noteq> None" and "base_url (global_config g) \<noteq> None"
    and "base_url_is_literal g"
  shows "validation_set_config config g = Inl Invalid_Free"
  using assms by (simp add: validation_set_config_def Let_def)

lemma validation_set_config_keeps_literal:
  assumes "validation_set_config config g = Inr g'" and "base_url_is_literal g"
    and "base_url (global_config g) \<noteq> None"
  shows "base_url_is_literal g' \<and> base_url (global_config g') = base_url (global_config g)"
  using assms by (auto simp: validation_set_config_def Let_def split: if_splits)

text \<open>
  Claim C6 as stated fails: \<^verbatim>\<open>validation_set_config\<close> guards the three string fields
  with \<^verbatim>\<open>if (config->...)\<close>. A configuration whose base URL is \<^verbatim>\<open>NULL\<close>, set in the
  initial state, returns and leaves the previous base URL in place: the active
  configuration is not the one supplied.
\<close>

theorem C6_wholesale_counterexample:
  "\<exists>g'. validation_set_config (initial_config\<lparr> base_url := None, timeout := 60 \<rparr>) initial_globals
           = Inr g'
     \<and> global_config g' \<noteq> initial_config\<lparr> base_url := None, timeout := 60 \<rparr>
     \<and> timeout (global_config g') = 60
     \<and> base_url (global_config g') = Some ''https://api-mock.payments.jpmorgan.com/tsapi/v2''"
  by (simp add: validation_set_config_def initial_globals_def initial_config_def)

text \<open>
  Claim C6, amended: for every configuration \<open>c\<close> that leaves the base URL \<^verbatim>\<open>NULL\<close>,
  \<^verbatim>\<open>validation_set_config(c)\<close> returns, and afterwards the timeout, the max retry count
  and the three toggles are those of \<open>c\<close>; the certificate path and the key path are
  those of \<open>c\<close> where \<open>c\<close> supplies one and are kept from the previous configuration
  where \<open>c\<close> has \<^verbatim>\<open>NULL\<close>; the base URL is kept from the previous configuration; the
  pool, the cache and the metrics are untouched. Nothing is said of a configuration that
  supplies a base URL.
\<close>

theorem C6_set_config_fields:
  assumes "base_url c = None"
  shows "\<exists>g'. validation_set_config c g = Inr g'
     \<and> timeout (global_config g') = timeout c
     \<and> max_retries (global_config g') = max_retries c
     \<and> enable_caching (global_config g') = enable_caching c
     \<and> enable_metrics (global_config g') = enable_metrics c
     \<and> enable_connection_pooling (global_config g') = enable_connection_pooling c
     \<and> base_url (global_config g') = base_url (global_config g)
     \<and> client_cert_path (global_config g') =
         (case client_cert_path c of None \<Rightarrow> client_cert_path (global_config g) | Some p \<Rightarrow> Some p)
     \<and> client_key_path (global_config g') =
         (case client_key_path c of None \<Rightarrow> client_key_path (global_config g) | Some p \<Rightarrow> Some p)
     \<and> connection_pool g' = connection_pool g
     \<and> cache_head g' = cache_head g
     \<and> metrics_buffer g' = metrics_buffer g"
  using assms
  by (auto simp: validation_set_config_def Let_def split: option.splits)

theorem C6_set_config_fields_witness:
  "base_url (initial_config\<lparr> base_url := None, timeout := 60, max_retries := 5,
                             enable_caching := False, client_cert_path := Some ''/c.pem'' \<rparr>) = None
   \<and> (\<exists>g'. validation_set_config
               (initial_config\<lparr> base_url := None, timeout := 60, max_retries := 5,
                                enable_caching := False, client_cert_path := Some ''/c.pem'' \<rparr>)
               initial_globals = Inr g'
          \<and> global_config g' =
               initial_config\<lparr> timeout := 60, max_retries := 5, enable_caching := False,
                                client_cert_path := Some ''/c.pem'' \<rparr>)"
proof -
  let ?c = "initial_config\<lparr> base_url := None, timeout := 60, max_retries := 5,
                             enable_caching := False, client_cert_path := Some ''/c.pem'' \<rparr>"
  have n: "base_url ?c = None" by simp
  from C6_set_config_fields [OF n, of initial_globals] obtain g' where
    run: "validation_set_config ?c initial_globals = Inr g'"
    and f: "timeout (global_config g') = timeout ?c"
      "max_retries (global_config g') = max_retries ?c"
      "enable_caching (global_config g') = enable_caching ?c"
      "enable_metrics (global_config g') = enable_metrics ?c"
      "enable_connection_pooling (global_config g') = enable_connection_pooling ?c"
      "base_url (global_config g') = base_url (global_config initial_globals)"
      "client_cert_path (global_config g') =
         (case client_cert_path ?c of None \<Rightarrow> client_cert_path (global_config initial_globals)
          | Some p \<Rightarrow> Some p)"
      "client_key_path (global_config g') =
         (case client_key_path ?c of None \<Rightarrow> client_key_path (global_config initial_globals)
          | Some p \<Rightarrow> Some p)"
    by blast
  have "global_config g' =
          initial_config\<lparr> timeout := 60, max_retries := 5, enable_caching := False,
                           client_cert_path := Some ''/c.pem'' \<rparr>"
    using f by (cases "global_config g'") (simp add: initial_globals_def initial_config_def)
  with n run show ?thesis by blast
qed

subsection \<open>Retry engine\<close>

text \<open>
  Claim C10: with a max retry count of 0 the loop condition \<^verbatim>\<open>retry_count < max_retries\<close>
  is false at once: \<^verbatim>\<open>validation_retry_with_backoff\<close> performs no exchange (the
  environment is unchanged: nothing performed, nothing slept) and returns \<^verbatim>\<open>res\<close>
  as it was declared, uninitialised.
\<close>

theorem C10_zero_max_retries_no_exchange:
  "validation_retry_with_backoff curl 0 e = (None, e)"
  by (simp add: validation_retry_with_backoff_def)

theorem C10_zero_max_retries_witness:
  "validation_retry_with_backoff 0 0 (initial_env (always 503 [])) = (None, initial_env (always 503 []))
   \<and> performed (snd (validation_retry_with_backoff 0 0 (initial_env (always 503 [])))) = []"
  using C10_zero_max_retries_no_exchange [of 0 "initial_env (always 503 [])"]
  by (simp add: initial_env_def)

end
